theory Spec2Isabelle
  imports Complex_Main
begin

section \<open>Numbers\<close>

text \<open>
  The script computes with Python floats and numpy float64 arrays. A value is modelled as
  a finite number, carried as a real, or one of the special values of IEEE 754. The
  special values matter: numpy does not raise on a division by zero or on an overflow, it
  yields \<open>inf\<close> or \<open>nan\<close> (with a warning), and \<open>float\<close> accepts the tokens \<open>inf\<close> and
  \<open>nan\<close>.

  Overflow is modelled: a result whose exact value reaches \<open>2^1024 - 2^970\<close>, from where
  rounding to nearest gives infinity, is \<open>inf\<close> with its sign. The rounding of a result
  below that bound, underflow and the sign of zero are not modelled: such a result is
  carried as its exact value.
\<close>

datatype fval = Fin real | PInf | NInf | NaN

definition overflow_threshold :: real where
  "overflow_threshold = 2 ^ 1024 - 2 ^ 970"

definition overflow :: "real \<Rightarrow> fval" where
  "overflow x =
     (if overflow_threshold \<le> x then PInf
      else if x \<le> - overflow_threshold then NInf
      else Fin x)"

text \<open>The finite floats: the numbers below the overflow bound.\<close>

fun is_fin :: "fval \<Rightarrow> bool" where
  "is_fin (Fin x) = (\<bar>x\<bar> < overflow_threshold)"
| "is_fin PInf = False"
| "is_fin NInf = False"
| "is_fin NaN = False"

fun fneg :: "fval \<Rightarrow> fval" where
  "fneg (Fin x) = Fin (- x)"
| "fneg PInf = NInf"
| "fneg NInf = PInf"
| "fneg NaN = NaN"

fun fadd :: "fval \<Rightarrow> fval \<Rightarrow> fval" where
  "fadd NaN y = NaN"
| "fadd x NaN = NaN"
| "fadd (Fin x) (Fin y) = overflow (x + y)"
| "fadd PInf NInf = NaN"
| "fadd NInf PInf = NaN"
| "fadd PInf y = PInf"
| "fadd NInf y = NInf"
| "fadd (Fin x) PInf = PInf"
| "fadd (Fin x) NInf = NInf"

definition fsub :: "fval \<Rightarrow> fval \<Rightarrow> fval" where
  "fsub x y = fadd x (fneg y)"

text \<open>The sign of an infinite result; a finite zero counts as positive.\<close>

definition inf_of_sign :: "bool \<Rightarrow> fval" where
  "inf_of_sign neg = (if neg then NInf else PInf)"

fun fmul :: "fval \<Rightarrow> fval \<Rightarrow> fval" where
  "fmul NaN y = NaN"
| "fmul x NaN = NaN"
| "fmul (Fin x) (Fin y) = overflow (x * y)"
| "fmul PInf PInf = PInf"
| "fmul PInf NInf = NInf"
| "fmul NInf PInf = NInf"
| "fmul NInf NInf = PInf"
| "fmul PInf (Fin y) = (if y = 0 then NaN else inf_of_sign (y < 0))"
| "fmul NInf (Fin y) = (if y = 0 then NaN else inf_of_sign (0 < y))"
| "fmul (Fin x) PInf = (if x = 0 then NaN else inf_of_sign (x < 0))"
| "fmul (Fin x) NInf = (if x = 0 then NaN else inf_of_sign (0 < x))"

fun fdiv :: "fval \<Rightarrow> fval \<Rightarrow> fval" where
  "fdiv NaN y = NaN"
| "fdiv x NaN = NaN"
| "fdiv (Fin x) (Fin y) =
     (if y = 0 then (if x = 0 then NaN else inf_of_sign (x < 0)) else overflow (x / y))"
| "fdiv (Fin x) PInf = Fin 0"
| "fdiv (Fin x) NInf = Fin 0"
| "fdiv PInf (Fin y) = inf_of_sign (y < 0)"
| "fdiv NInf (Fin y) = inf_of_sign (\<not> y < 0)"
| "fdiv PInf y = NaN"
| "fdiv NInf y = NaN"

fun fsqrt :: "fval \<Rightarrow> fval" where
  "fsqrt (Fin x) = (if x < 0 then NaN else Fin (sqrt x))"
| "fsqrt PInf = PInf"
| "fsqrt NInf = NaN"
| "fsqrt NaN = NaN"

text \<open>The comparison \<open>\<le>\<close> of floats: \<open>nan\<close> is comparable with nothing.\<close>

fun fle :: "fval \<Rightarrow> fval \<Rightarrow> bool" where
  "fle NaN y = False"
| "fle x NaN = False"
| "fle (Fin x) (Fin y) = (x \<le> y)"
| "fle NInf y = True"
| "fle x PInf = True"
| "fle PInf y = False"
| "fle x NInf = False"

section \<open>Errors\<close>

text \<open>
  The exceptions the modelled code can raise, under their Python names: \<open>IndexError\<close>
  (an index out of range), \<open>ValueError\<close> (\<open>float\<close> on a token that is no number, a
  list of arrays that numpy cannot make a matrix of, a reshape that does not fit),
  \<open>UnboundLocalError\<close> (a local variable read before it was assigned) and
  \<open>ZeroDivisionError\<close> (\<open>np.average\<close> over no columns). \<open>TypeError\<close> and
  \<open>RuntimeError\<close> are raised by the fit only (too few data points, no convergence).
\<close>

datatype error =
  IndexError | ValueError | UnboundLocalError | ZeroDivisionError | TypeError | RuntimeError

section \<open>The class Reaction\<close>

text \<open>
  The field \<open>pars\<close> holds the integer 0 until a fit stores an array in it, so its values
  are numbers or arrays.
\<close>

datatype pyval = Num fval | Arr "fval list"

record Reaction =
  cpm_array :: "fval list"
  time_array :: "fval list"
  sa :: fval
  pars :: pyval
  r2 :: fval
  normalized_cpm_array :: "fval list"
  aa_conc :: fval
  conc_array :: "fval list"

text \<open>The constructor \<open>Reaction.__init__\<close>.\<close>

definition Reaction_init :: "fval list \<Rightarrow> fval list \<Rightarrow> fval \<Rightarrow> fval \<Rightarrow> Reaction" where
  "Reaction_init time_array' cpm_array' sa' aa_conc' =
     \<lparr> cpm_array = cpm_array',
       time_array = time_array',
       sa = sa',
       pars = Num (Fin 0),
       r2 = Fin 0,
       normalized_cpm_array = [],
       aa_conc = aa_conc',
       conc_array = [] \<rparr>"

text \<open>
  \<open>Reaction.calc_conc\<close>. Reading \<open>cpm_array[0]\<close> of an empty array raises \<open>IndexError\<close>
  before anything is assigned; otherwise the two derived arrays are stored, the second
  computed from the first, elementwise.
\<close>

definition calc_conc :: "Reaction \<Rightarrow> error + Reaction" where
  "calc_conc self =
     (case cpm_array self of
        [] \<Rightarrow> Inl IndexError
      | cpm0 # _ \<Rightarrow>
          let self1 = self\<lparr>normalized_cpm_array := map (\<lambda>x. fsub x cpm0) (cpm_array self)\<rparr>
          in Inr (self1\<lparr>conc_array :=
                map (\<lambda>x. fmul (fdiv x (sa self1)) (aa_conc self1))
                  (normalized_cpm_array self1)\<rparr>))"

section \<open>The record parser\<close>

text \<open>
  \<open>str.split()\<close> without arguments: the maximal runs of characters that are not
  whitespace, in order. The text is taken as ASCII, where Python's whitespace is the
  characters 9 to 13, 28 to 32.
\<close>

definition is_space :: "char \<Rightarrow> bool" where
  "is_space c = (let n = (of_char c :: nat) in (9 \<le> n \<and> n \<le> 13) \<or> (28 \<le> n \<and> n \<le> 32))"

fun split_from :: "string \<Rightarrow> string \<Rightarrow> string list" where
  "split_from cur [] = (if cur = [] then [] else [cur])"
| "split_from cur (c # cs) =
     (if is_space c then (if cur = [] then split_from [] cs else cur # split_from [] cs)
      else split_from (cur @ [c]) cs)"

definition py_split :: "string \<Rightarrow> string list" where
  "py_split line = split_from [] line"

text \<open>
  The builtin \<open>float\<close> on a token without surrounding whitespace, after the grammar of
  the Python reference: an optional sign, then \<open>inf\<close>, \<open>infinity\<close> or \<open>nan\<close> in any case,
  or a decimal number (digits, which single underscores may separate, with an optional
  point and an optional exponent). \<open>None\<close> stands for the \<open>ValueError\<close> that \<open>float\<close>
  raises on anything else (Python 3.6 or later, which allow the underscores). The value
  of a decimal number is taken exactly, up to overflow: \<open>float('1e999')\<close> is \<open>inf\<close>.
\<close>

definition is_digit :: "char \<Rightarrow> bool" where
  "is_digit c = (let n = (of_char c :: nat) in 48 \<le> n \<and> n \<le> 57)"

definition digit_val :: "char \<Rightarrow> nat" where
  "digit_val c = of_char c - 48"

definition lower_char :: "char \<Rightarrow> char" where
  "lower_char c = (let n = (of_char c :: nat) in if 65 \<le> n \<and> n \<le> 90 then char_of (n + 32) else c)"

text \<open>
  A digit part: a digit, then digits each of which one underscore may precede. The
  result is the digits read (without the underscores) and the rest of the input.
\<close>

fun digits_rest :: "string \<Rightarrow> string \<times> string" where
  "digits_rest [] = ([], [])"
| "digits_rest [c] = (if is_digit c then ([c], []) else ([], [c]))"
| "digits_rest (c # d # cs) =
     (if is_digit c then (let (ds, r) = digits_rest (d # cs) in (c # ds, r))
      else if c = CHR ''_'' \<and> is_digit d then digits_rest (d # cs)
      else ([], c # d # cs))"

definition digitpart :: "string \<Rightarrow> (string \<times> string) option" where
  "digitpart s =
     (case s of
        [] \<Rightarrow> None
      | c # cs \<Rightarrow> if is_digit c then Some (digits_rest s) else None)"

definition nat_of_digits :: "string \<Rightarrow> nat" where
  "nat_of_digits ds = foldl (\<lambda>n c. 10 * n + digit_val c) 0 ds"

text \<open>The exponent, if there is one, must reach the end of the token.\<close>

definition exponent :: "string \<Rightarrow> int option" where
  "exponent s =
     (case s of
        [] \<Rightarrow> Some 0
      | c # cs \<Rightarrow>
          if lower_char c \<noteq> CHR ''e'' then None
          else (let (neg, ds) = (case cs of
                                  [] \<Rightarrow> (False, [])
                                | x # xs \<Rightarrow> if x = CHR ''-'' then (True, xs)
                                            else if x = CHR ''+'' then (False, xs)
                                            else (False, cs))
                in case digitpart ds of
                     Some (es, []) \<Rightarrow> Some (if neg then - int (nat_of_digits es)
                                           else int (nat_of_digits es))
                   | _ \<Rightarrow> None))"

definition scale10 :: "real \<Rightarrow> int \<Rightarrow> real" where
  "scale10 m e = (if 0 \<le> e then m * 10 ^ nat e else m / 10 ^ nat (- e))"

text \<open>An unsigned decimal number: \<open>[digitpart] . digitpart\<close> or \<open>digitpart [.]\<close>, then the exponent.\<close>

definition floatnumber :: "string \<Rightarrow> real option" where
  "floatnumber s =
     (case digitpart s of
        Some (ip, rest) \<Rightarrow>
          (case rest of
             c # rest1 \<Rightarrow>
               if c = CHR ''.'' then
                 (case digitpart rest1 of
                    Some (fp, rest2) \<Rightarrow>
                      map_option
                        (scale10 (real (nat_of_digits (ip @ fp)) / 10 ^ length fp))
                        (exponent rest2)
                  | None \<Rightarrow> map_option (scale10 (real (nat_of_digits ip))) (exponent rest1))
               else map_option (scale10 (real (nat_of_digits ip))) (exponent rest)
           | [] \<Rightarrow> Some (real (nat_of_digits ip)))
      | None \<Rightarrow>
          (case s of
             c # rest1 \<Rightarrow>
               if c = CHR ''.'' then
                 (case digitpart rest1 of
                    Some (fp, rest2) \<Rightarrow>
                      map_option (scale10 (real (nat_of_digits fp) / 10 ^ length fp))
                        (exponent rest2)
                  | None \<Rightarrow> None)
               else None
           | [] \<Rightarrow> None))"

definition absfloatvalue :: "string \<Rightarrow> fval option" where
  "absfloatvalue s =
     (let l = map lower_char s
      in if l = ''inf'' \<or> l = ''infinity'' then Some PInf
         else if l = ''nan'' then Some NaN
         else map_option overflow (floatnumber s))"

definition py_float :: "string \<Rightarrow> fval option" where
  "py_float s =
     (case s of
        [] \<Rightarrow> None
      | c # cs \<Rightarrow>
          if c = CHR ''-'' then map_option fneg (absfloatvalue cs)
          else if c = CHR ''+'' then absfloatvalue cs
          else absfloatvalue s)"

text \<open>
  The local variables of \<open>read_data\<close> while it loops over the lines. \<open>time_array\<close> and
  \<open>cpm_array\<close> are assigned by a \<open>conc\<close> line only; until then they are unbound
  (\<open>None\<close>), and reading them raises \<open>UnboundLocalError\<close>.
\<close>

record pstate =
  rxns :: "Reaction list"
  p_aa_conc :: fval
  p_time_array :: "fval list option"
  p_cpm_array :: "fval list option"

definition init_pstate :: pstate where
  "init_pstate = \<lparr> rxns = [], p_aa_conc = Fin 0, p_time_array = None, p_cpm_array = None \<rparr>"

text \<open>
  The body of the loop, on one line. \<open>entries[0]\<close> and \<open>entries[1]\<close> are read first, so a
  line with fewer than two tokens raises \<open>IndexError\<close>. In the \<open>sa\<close> branch the arguments
  of \<open>Reaction\<close> are evaluated from left to right: the two buffers (copied by
  \<open>np.array\<close>) before \<open>float(cpm)\<close>. In the last branch \<open>time_array.append\<close> is looked up
  before \<open>float(time)\<close> is evaluated.
\<close>

definition read_line :: "pstate \<Rightarrow> string \<Rightarrow> error + pstate" where
  "read_line st line =
     (case py_split line of
        [] \<Rightarrow> Inl IndexError
      | [time] \<Rightarrow> Inl IndexError
      | time # cpm # _ \<Rightarrow>
          if time = ''conc'' then
            (case py_float cpm of
               None \<Rightarrow> Inl ValueError
             | Some v \<Rightarrow> Inr (st\<lparr>p_time_array := Some [], p_cpm_array := Some [],
                                 p_aa_conc := v\<rparr>))
          else if time = ''sa'' then
            (case p_time_array st of
               None \<Rightarrow> Inl UnboundLocalError
             | Some ta \<Rightarrow>
                 (case p_cpm_array st of
                    None \<Rightarrow> Inl UnboundLocalError
                  | Some ca \<Rightarrow>
                      (case py_float cpm of
                         None \<Rightarrow> Inl ValueError
                       | Some v \<Rightarrow>
                           Inr (st\<lparr>rxns := rxns st @ [Reaction_init ta ca v (p_aa_conc st)]\<rparr>))))
          else
            (case p_time_array st of
               None \<Rightarrow> Inl UnboundLocalError
             | Some ta \<Rightarrow>
                 (case py_float time of
                    None \<Rightarrow> Inl ValueError
                  | Some t \<Rightarrow>
                      (case p_cpm_array st of
                         None \<Rightarrow> Inl UnboundLocalError
                       | Some ca \<Rightarrow>
                           (case py_float cpm of
                              None \<Rightarrow> Inl ValueError
                            | Some c \<Rightarrow>
                                Inr (st\<lparr>p_time_array := Some (ta @ [t]),
                                        p_cpm_array := Some (ca @ [c])\<rparr>))))))"

text \<open>The loop over the lines; the first exception ends it.\<close>

fun read_lines :: "pstate \<Rightarrow> string list \<Rightarrow> error + pstate" where
  "read_lines st [] = Inr st"
| "read_lines st (line # ls) =
     (case read_line st line of Inl e \<Rightarrow> Inl e | Inr st' \<Rightarrow> read_lines st' ls)"

text \<open>
  \<open>read_data\<close>, on the list of lines that \<open>readlines\<close> gives (each with its line end):
  the list \<open>rxns\<close> when the loop has come to its end.
\<close>

definition read_data :: "string list \<Rightarrow> error + Reaction list" where
  "read_data ls = (case read_lines init_pstate ls of Inl e \<Rightarrow> Inl e | Inr st \<Rightarrow> Inr (rxns st))"

section \<open>The kinetics fitter\<close>

text \<open>
  \<open>fit(conc_array, time_array)\<close> hands its arguments to \<open>scipy.optimize.curve_fit\<close> and
  \<open>scipy.stats.linregress\<close> and returns the two fitted parameters and \<open>r_value**2\<close>, or
  raises what they raise: \<open>ValueError\<close> on \<open>nan\<close> or \<open>inf\<close> in the data, \<open>TypeError\<close>
  on fewer data points than parameters, \<open>RuntimeError\<close> when the solver does not
  converge. The numerics are SciPy's and not part of this repository, so the function is
  a parameter of what calls it: any function of this type.
\<close>

type_synonym fit_fun = "fval list \<Rightarrow> fval list \<Rightarrow> error + ((fval \<times> fval) \<times> fval)"

section \<open>The replicate aggregator\<close>

text \<open>
  \<open>np.reshape(rows, [m, n])\<close> on a list of one-dimensional arrays, as numpy 1.24 and
  later do it. The list is converted to an array first (\<open>np_asarray\<close>): rows of unequal
  lengths raise \<open>ValueError\<close>, rows of one length give a matrix. Only then is the matrix
  laid out again as \<open>m\<close> rows of \<open>n\<close> entries, in row-major order, which raises
  \<open>ValueError\<close> unless the number of entries is \<open>m * n\<close>.
\<close>

definition np_asarray :: "fval list list \<Rightarrow> error + fval list list" where
  "np_asarray rows =
     (if list_all (\<lambda>row. length row = length (hd rows)) rows then Inr rows
      else Inl ValueError)"

fun chunks :: "nat \<Rightarrow> nat \<Rightarrow> 'a list \<Rightarrow> 'a list list" where
  "chunks 0 n xs = []"
| "chunks (Suc m) n xs = take n xs # chunks m n (drop n xs)"

definition np_reshape :: "fval list list \<Rightarrow> nat \<Rightarrow> nat \<Rightarrow> error + fval list list" where
  "np_reshape rows m n =
     (case np_asarray rows of
        Inl e \<Rightarrow> Inl e
      | Inr matrix \<Rightarrow>
          if length (concat matrix) \<noteq> m * n then Inl ValueError
          else Inr (chunks m n (concat matrix)))"

text \<open>Column \<open>j\<close> of a matrix given by its rows.\<close>

definition column :: "fval list list \<Rightarrow> nat \<Rightarrow> fval list" where
  "column matrix j = map (\<lambda>row. row ! j) matrix"

definition fsum :: "fval list \<Rightarrow> fval" where
  "fsum xs = foldl fadd (Fin 0) xs"

text \<open>
  The mean of a column, and its standard deviation as \<open>np.std\<close> computes it with its
  default \<open>ddof = 0\<close>: the square root of the mean squared deviation from the mean, the
  sum of the squares being divided by the number of rows (not by one less).
\<close>

definition mean :: "fval list \<Rightarrow> fval" where
  "mean xs = fdiv (fsum xs) (Fin (real (length xs)))"

definition std :: "fval list \<Rightarrow> fval" where
  "std xs = fsqrt (mean (map (\<lambda>x. fmul (fsub x (mean xs)) (fsub x (mean xs))) xs))"

text \<open>
  \<open>np.average(matrix, axis=0)\<close> and \<open>np.std(matrix, axis=0)\<close> of a matrix with \<open>n\<close>
  columns. \<open>np.average\<close> divides the size of the matrix by the size of its result, as
  Python numbers, and so raises \<open>ZeroDivisionError\<close> when there is no column.
\<close>

definition np_average0 :: "fval list list \<Rightarrow> nat \<Rightarrow> error + fval list" where
  "np_average0 matrix n =
     (if n = 0 then Inl ZeroDivisionError
      else Inr (map (\<lambda>j. mean (column matrix j)) [0..<n]))"

definition np_std0 :: "fval list list \<Rightarrow> nat \<Rightarrow> fval list" where
  "np_std0 matrix n = map (\<lambda>j. std (column matrix j)) [0..<n]"

text \<open>
  \<open>plot_multiple_fit\<close>, with the fit as a parameter. \<open>rxns[0]\<close> raises \<open>IndexError\<close> on
  an empty list. Nothing compares the lengths of the time arrays: the only checks are
  those inside \<open>np.reshape\<close>, on the concentration arrays. The Python function returns
  nothing and draws a figure; the model returns what it hands to the figure: the averages,
  the standard deviations (the error bars) and the fitted parameters (the curve). The
  calls of matplotlib and the writing of the files are not modelled.
\<close>

definition plot_multiple_fit ::
  "fit_fun \<Rightarrow> Reaction list \<Rightarrow> error + (fval list \<times> fval list \<times> (fval \<times> fval))" where
  "plot_multiple_fit fit rs =
     (case rs of
        [] \<Rightarrow> Inl IndexError
      | r0 # _ \<Rightarrow>
          let num_rxns = length rs;
              num_data_points = length (time_array r0);
              concat_conc_array = map conc_array rs
          in case np_reshape concat_conc_array num_rxns num_data_points of
               Inl e \<Rightarrow> Inl e
             | Inr conc_matrix \<Rightarrow>
                 (case np_average0 conc_matrix num_data_points of
                    Inl e \<Rightarrow> Inl e
                  | Inr ave_conc_array \<Rightarrow>
                      let std_conc_array = np_std0 conc_matrix num_data_points
                      in case fit ave_conc_array (time_array r0) of
                           Inl e \<Rightarrow> Inl e
                         | Inr (ave_pars, rsq) \<Rightarrow>
                             Inr (ave_conc_array, std_conc_array, ave_pars)))"

section \<open>The whole run\<close>

text \<open>
  The loop of \<open>main\<close> that converts every replicate, in order; the first exception ends it.
\<close>

fun calc_conc_all :: "Reaction list \<Rightarrow> error + Reaction list" where
  "calc_conc_all [] = Inr []"
| "calc_conc_all (rxn # rest) =
     (case calc_conc rxn of
        Inl e \<Rightarrow> Inl e
      | Inr rxn' \<Rightarrow> (case calc_conc_all rest of Inl e \<Rightarrow> Inl e | Inr rest' \<Rightarrow> Inr (rxn' # rest')))"

text \<open>
  \<open>main\<close> from the list of lines on: parse, convert every replicate, aggregate and fit.
\<close>

definition main ::
  "fit_fun \<Rightarrow> string list \<Rightarrow> error + (fval list \<times> fval list \<times> (fval \<times> fval))" where
  "main fit ls =
     (case read_data ls of
        Inl e \<Rightarrow> Inl e
      | Inr rs \<Rightarrow>
          (case calc_conc_all rs of Inl e \<Rightarrow> Inl e | Inr rs' \<Rightarrow> plot_multiple_fit fit rs'))"

text \<open>
  The invariant of the parser's loop: the two buffers are bound together and have the
  same length, and so have the two arrays of every Reaction built so far.
\<close>

definition buffers_ok :: "pstate \<Rightarrow> bool" where
  "buffers_ok st \<longleftrightarrow>
     (\<forall>r \<in> set (rxns st). length (time_array r) = length (cpm_array r)) \<and>
     (case (p_time_array st, p_cpm_array st) of
        (None, None) \<Rightarrow> True
      | (Some ta, Some ca) \<Rightarrow> length ta = length ca
      | _ \<Rightarrow> False)"

text \<open>
  A line cut after its second token: the first two tokens, with one space between them.
\<close>

definition truncate_line :: "string \<Rightarrow> string" where
  "truncate_line line = py_split line ! 0 @ '' '' @ py_split line ! 1"

text \<open>A list is non-decreasing when each entry is \<open>\<le>\<close> every later one.\<close>

definition nondecreasing :: "fval list \<Rightarrow> bool" where
  "nondecreasing xs = sorted_wrt fle xs"

section \<open>Properties of the numbers\<close>

lemma overflow_threshold_pos: "0 < overflow_threshold"
  by (simp add: overflow_threshold_def)

lemma overflow_id: "\<bar>x\<bar> < overflow_threshold \<Longrightarrow> overflow x = Fin x"
  by (auto simp: overflow_def)

lemma overflow_small: "\<bar>x\<bar> \<le> 1000000 \<Longrightarrow> overflow x = Fin x"
proof -
  assume "\<bar>x\<bar> \<le> 1000000"
  moreover have "(1000000::real) < overflow_threshold" by (simp add: overflow_threshold_def)
  ultimately show ?thesis by (intro overflow_id) linarith
qed

lemma overflow_0 [simp]: "overflow 0 = Fin 0"
  by (simp add: overflow_small)

lemma overflow_not_NaN [simp]: "overflow x \<noteq> NaN"
  by (simp add: overflow_def)

lemma overflow_mono: "x \<le> y \<Longrightarrow> fle (overflow x) (overflow y)"
  using overflow_threshold_pos by (auto simp: overflow_def)

lemma fle_PInf [simp]: "fle u PInf \<longleftrightarrow> u \<noteq> NaN"
  by (cases u) simp_all

lemma fle_NInf [simp]: "fle NInf v \<longleftrightarrow> v \<noteq> NaN"
  by (cases v) simp_all

lemma fdiv_NaN [simp]: "fdiv NaN y = NaN"
  by (cases y) simp_all

lemma fmul_NaN [simp]: "fmul NaN y = NaN"
  by (cases y) simp_all

lemma fsub_Fin: "fsub (Fin x) (Fin c) = overflow (x - c)"
  by (simp add: fsub_def)

text \<open>
  Dividing by a positive finite number and multiplying with one keep the order, also
  where a result overflows, and never give \<open>nan\<close> on an argument that is none.
\<close>

lemma fdiv_pos_mono:
  assumes "0 < s" "u \<noteq> NaN" "v \<noteq> NaN" "fle u v"
  shows "fle (fdiv u (Fin s)) (fdiv v (Fin s))"
proof (cases u)
  case (Fin x)
  note u = this
  show ?thesis
  proof (cases v)
    case (Fin y)
    then have "x / s \<le> y / s" using assms u by (simp add: divide_right_mono)
    then show ?thesis using assms(1) u Fin by (simp add: overflow_mono)
  qed (use assms u in \<open>simp_all add: inf_of_sign_def\<close>)
next
  case PInf
  then show ?thesis using assms by (cases v) (simp_all add: inf_of_sign_def)
next
  case NInf
  then show ?thesis using assms by (cases v) (simp_all add: inf_of_sign_def)
next
  case NaN
  then show ?thesis using assms by simp
qed

lemma fdiv_pos_not_NaN: "0 < s \<Longrightarrow> u \<noteq> NaN \<Longrightarrow> fdiv u (Fin s) \<noteq> NaN"
  by (cases u) (simp_all add: inf_of_sign_def)

lemma fmul_pos_mono:
  assumes "0 < a" "u \<noteq> NaN" "v \<noteq> NaN" "fle u v"
  shows "fle (fmul u (Fin a)) (fmul v (Fin a))"
proof (cases u)
  case (Fin x)
  note u = this
  show ?thesis
  proof (cases v)
    case (Fin y)
    then have "x * a \<le> y * a" using assms u by (simp add: mult_right_mono)
    then show ?thesis using u Fin by (simp add: overflow_mono)
  qed (use assms u in \<open>simp_all add: inf_of_sign_def\<close>)
next
  case PInf
  then show ?thesis using assms by (cases v) (simp_all add: inf_of_sign_def)
next
  case NInf
  then show ?thesis using assms by (cases v) (simp_all add: inf_of_sign_def)
next
  case NaN
  then show ?thesis using assms by simp
qed

section \<open>Properties of the concentration converter\<close>

text \<open>
  The first concentration: the baseline minus itself is 0 for a number, \<open>0 / sa\<close> is 0
  for a number \<open>sa\<close> other than 0, and \<open>0 * aa_conc\<close> is 0 for a number \<open>aa_conc\<close>.
\<close>

lemma conc0:
  "s \<noteq> 0 \<Longrightarrow> fmul (fdiv (fsub (Fin v) (Fin v)) (Fin s)) (Fin a) = Fin 0"
  by (simp add: fsub_Fin)

lemma calc_conc_eq:
  "cpm_array r \<noteq> [] \<Longrightarrow>
   calc_conc r =
     Inr (r\<lparr>normalized_cpm_array := map (\<lambda>x. fsub x (cpm_array r ! 0)) (cpm_array r),
            conc_array := map (\<lambda>x. fmul (fdiv (fsub x (cpm_array r ! 0)) (sa r)) (aa_conc r))
                            (cpm_array r)\<rparr>)"
  by (cases "cpm_array r") (simp_all add: calc_conc_def Let_def)

lemma calc_conc_Inr:
  "calc_conc r = Inr r' \<Longrightarrow>
     cpm_array r \<noteq> [] \<and>
     r' = r\<lparr>normalized_cpm_array := map (\<lambda>x. fsub x (cpm_array r ! 0)) (cpm_array r),
            conc_array := map (\<lambda>x. fmul (fdiv (fsub x (cpm_array r ! 0)) (sa r)) (aa_conc r))
                            (cpm_array r)\<rparr>"
  by (auto simp: calc_conc_def Let_def split: list.splits)

lemma calc_conc_Inl: "calc_conc r = Inl e \<longleftrightarrow> cpm_array r = [] \<and> e = IndexError"
  by (auto simp: calc_conc_def Let_def split: list.splits)

text \<open>
  C1. On every replicate with a non-empty \<open>cpm_array\<close> (rawSignal), \<open>calc_conc\<close> returns,
  with \<open>normalized_cpm_array[i] = cpm_array[i] - cpm_array[0]\<close> and
  \<open>conc_array[i] = normalized_cpm_array[i] / sa * aa_conc\<close> at every index. In
  particular the first concentration is 0 for every such replicate whose baseline
  \<open>cpm_array[0]\<close>, specific activity and total concentration are numbers, the specific
  activity not 0, as they are in every valid replicate (real samples, positive constants).
\<close>

theorem calc_conc_correct:
  assumes "cpm_array r \<noteq> []"
  shows "\<exists>r'. calc_conc r = Inr r' \<and>
           length (normalized_cpm_array r') = length (cpm_array r) \<and>
           length (conc_array r') = length (cpm_array r) \<and>
           (\<forall>i < length (cpm_array r).
              normalized_cpm_array r' ! i = fsub (cpm_array r ! i) (cpm_array r ! 0) \<and>
              conc_array r' ! i = fmul (fdiv (normalized_cpm_array r' ! i) (sa r)) (aa_conc r)) \<and>
           ((\<exists>v s a. cpm_array r ! 0 = Fin v \<and> sa r = Fin s \<and> s \<noteq> 0 \<and> aa_conc r = Fin a)
              \<longrightarrow> conc_array r' ! 0 = Fin 0)"
proof -
  have "0 < length (cpm_array r)" using assms by simp
  then show ?thesis
    using assms by (auto simp: calc_conc_eq conc0)
qed

theorem calc_conc_correct_witness:
  "cpm_array (Reaction_init [Fin 0, Fin 5] [Fin 100, Fin 150] (Fin 50) (Fin 10)) \<noteq> [] \<and>
   (\<exists>r'. calc_conc (Reaction_init [Fin 0, Fin 5] [Fin 100, Fin 150] (Fin 50) (Fin 10)) = Inr r' \<and>
          conc_array r' ! 0 = Fin 0)"
proof -
  let ?R = "Reaction_init [Fin 0, Fin 5] [Fin 100, Fin 150] (Fin 50) (Fin 10)"
  have h: "cpm_array ?R \<noteq> []" by (simp add: Reaction_init_def)
  have v: "\<exists>v s a. cpm_array ?R ! 0 = Fin v \<and> sa ?R = Fin s \<and> s \<noteq> 0 \<and> aa_conc ?R = Fin a"
    by (simp add: Reaction_init_def)
  from calc_conc_correct [OF h] obtain r' where
    "calc_conc ?R = Inr r'"
    "(\<exists>v s a. cpm_array ?R ! 0 = Fin v \<and> sa ?R = Fin s \<and> s \<noteq> 0 \<and> aa_conc ?R = Fin a)
       \<longrightarrow> conc_array r' ! 0 = Fin 0"
    by blast
  then show ?thesis using h v by blast
qed

lemma sorted_wrt_map_mono:
  assumes "sorted_wrt P xs"
    and "\<And>x y. x \<in> set xs \<Longrightarrow> y \<in> set xs \<Longrightarrow> P x y \<Longrightarrow> Q (f x) (f y)"
  shows "sorted_wrt Q (map f xs)"
  using assms by (induction xs) auto

text \<open>
  One concentration as a function of its raw signal keeps the order, for a baseline that
  is a number and positive numbers \<open>s\<close> and \<open>a\<close>; an overflow on the way gives an
  infinity, which keeps its place in the order.
\<close>

lemma conc_step_mono:
  assumes "0 < s" "0 < a" "fle (Fin x) (Fin y)"
  shows "fle (fmul (fdiv (fsub (Fin x) (Fin c)) (Fin s)) (Fin a))
             (fmul (fdiv (fsub (Fin y) (Fin c)) (Fin s)) (Fin a))"
proof -
  have "x - c \<le> y - c" using assms(3) by simp
  then have 1: "fle (overflow (x - c)) (overflow (y - c))" by (rule overflow_mono)
  have 2: "fle (fdiv (overflow (x - c)) (Fin s)) (fdiv (overflow (y - c)) (Fin s))"
    using assms(1) 1 by (intro fdiv_pos_mono) simp_all
  have "fle (fmul (fdiv (overflow (x - c)) (Fin s)) (Fin a))
            (fmul (fdiv (overflow (y - c)) (Fin s)) (Fin a))"
    using assms(1,2) 2 by (intro fmul_pos_mono fdiv_pos_not_NaN) simp_all
  then show ?thesis by (simp add: fsub_Fin)
qed

lemma is_fin_Fin: "is_fin x \<Longrightarrow> \<exists>v. x = Fin v"
  by (cases x) simp_all

text \<open>
  C7. For a replicate whose raw signal is a non-empty, non-decreasing list of finite
  numbers, with a specific activity \<open>s > 0\<close> and a total concentration \<open>a > 0\<close> (a valid
  replicate), \<open>calc_conc\<close> returns, the concentrations it stores are those computed from
  the raw signal, one for each, and they are non-decreasing.
\<close>

theorem calc_conc_monotone:
  assumes "cpm_array r \<noteq> []"
    and "\<forall>x \<in> set (cpm_array r). is_fin x"
    and "sa r = Fin s" and "0 < s"
    and "aa_conc r = Fin a" and "0 < a"
    and "nondecreasing (cpm_array r)"
  shows "\<exists>r'. calc_conc r = Inr r' \<and>
           length (conc_array r') = length (cpm_array r) \<and>
           (\<forall>i < length (cpm_array r).
              conc_array r' ! i =
                fmul (fdiv (fsub (cpm_array r ! i) (cpm_array r ! 0)) (sa r)) (aa_conc r)) \<and>
           nondecreasing (conc_array r')"
proof -
  have "cpm_array r ! 0 \<in> set (cpm_array r)" using assms(1) by simp
  then obtain c where c: "cpm_array r ! 0 = Fin c" using assms(2) is_fin_Fin by blast
  have "sorted_wrt fle
          (map (\<lambda>x. fmul (fdiv (fsub x (Fin c)) (Fin s)) (Fin a)) (cpm_array r))"
  proof (rule sorted_wrt_map_mono)
    show "sorted_wrt fle (cpm_array r)" using assms(7) by (simp add: nondecreasing_def)
  next
    fix x y assume xy: "x \<in> set (cpm_array r)" "y \<in> set (cpm_array r)" "fle x y"
    then obtain x' y' where "x = Fin x'" "y = Fin y'" using assms(2) is_fin_Fin by blast
    then show "fle (fmul (fdiv (fsub x (Fin c)) (Fin s)) (Fin a))
                 (fmul (fdiv (fsub y (Fin c)) (Fin s)) (Fin a))"
      using xy(3) assms(4,6) by (simp only: conc_step_mono)
  qed
  then show ?thesis
    using assms(1,3,5) c by (simp add: calc_conc_eq nondecreasing_def)
qed

theorem calc_conc_monotone_witness:
  "\<exists>r'. calc_conc (Reaction_init [Fin 0, Fin 5, Fin 10] [Fin 100, Fin 150, Fin 180] (Fin 50) (Fin 10))
          = Inr r' \<and> conc_array r' = [Fin 0, Fin 10, Fin 16] \<and> nondecreasing (conc_array r')"
proof -
  let ?R = "Reaction_init [Fin 0, Fin 5, Fin 10] [Fin 100, Fin 150, Fin 180] (Fin 50) (Fin 10)"
  have "cpm_array ?R \<noteq> []" "\<forall>x \<in> set (cpm_array ?R). is_fin x"
    "sa ?R = Fin 50" "(0::real) < 50" "aa_conc ?R = Fin 10" "(0::real) < 10"
    "nondecreasing (cpm_array ?R)"
    by (simp_all add: Reaction_init_def nondecreasing_def overflow_threshold_def)
  from calc_conc_monotone [OF this] obtain r' where
    r: "calc_conc ?R = Inr r'" "nondecreasing (conc_array r')" by blast
  from r(1) have "conc_array r' = [Fin 0, Fin 10, Fin 16]"
    by (auto simp: calc_conc_def Reaction_init_def fsub_Fin overflow_small)
  with r show ?thesis by blast
qed

text \<open>
  C10. A call of \<open>calc_conc\<close> that returns leaves \<open>time_array\<close>, \<open>cpm_array\<close>, \<open>sa\<close>,
  \<open>aa_conc\<close>, \<open>pars\<close> and \<open>r2\<close> as they were; only \<open>normalized_cpm_array\<close> and
  \<open>conc_array\<close> are assigned. (A call that raises has assigned nothing.)
\<close>

theorem calc_conc_frame:
  assumes "calc_conc r = Inr r'"
  shows "time_array r' = time_array r \<and> cpm_array r' = cpm_array r \<and> sa r' = sa r \<and>
         aa_conc r' = aa_conc r \<and> pars r' = pars r \<and> r2 r' = r2 r"
  using calc_conc_Inr [OF assms] by simp

theorem calc_conc_frame_witness:
  "calc_conc (Reaction_init [Fin 0, Fin 5] [Fin 100, Fin 150] (Fin 50) (Fin 10)) =
     Inr ((Reaction_init [Fin 0, Fin 5] [Fin 100, Fin 150] (Fin 50) (Fin 10))
            \<lparr>normalized_cpm_array := [Fin 0, Fin 50], conc_array := [Fin 0, Fin 10]\<rparr>) \<and>
   time_array ((Reaction_init [Fin 0, Fin 5] [Fin 100, Fin 150] (Fin 50) (Fin 10))
            \<lparr>normalized_cpm_array := [Fin 0, Fin 50], conc_array := [Fin 0, Fin 10]\<rparr>) =
     [Fin 0, Fin 5]"
proof -
  let ?R = "Reaction_init [Fin 0, Fin 5] [Fin 100, Fin 150] (Fin 50) (Fin 10)"
  let ?R' = "?R\<lparr>normalized_cpm_array := [Fin 0, Fin 50], conc_array := [Fin 0, Fin 10]\<rparr>"
  have h: "calc_conc ?R = Inr ?R'"
    by (simp add: calc_conc_def Reaction_init_def fsub_Fin overflow_small)
  from calc_conc_frame [OF h] have "time_array ?R' = time_array ?R" by blast
  then show ?thesis using h by (simp add: Reaction_init_def)
qed

text \<open>
  Where the validity of the replicate is needed. With the specific activity 0 the first
  concentration is \<open>0 / 0\<close>, that is \<open>nan\<close>. With the total concentration 0 (the other
  constants valid) a difference of raw signals that overflows gives \<open>inf * 0\<close>, again
  \<open>nan\<close>, and the concentrations are not non-decreasing.
\<close>

lemma calc_conc_zero_sa_example:
  "calc_conc (Reaction_init [Fin 0, Fin 5] [Fin 100, Fin 150] (Fin 0) (Fin 10)) =
     Inr ((Reaction_init [Fin 0, Fin 5] [Fin 100, Fin 150] (Fin 0) (Fin 10))
            \<lparr>normalized_cpm_array := [Fin 0, Fin 50], conc_array := [NaN, PInf]\<rparr>)"
  by (simp add: calc_conc_def Reaction_init_def fsub_Fin overflow_small inf_of_sign_def)

lemma calc_conc_overflow_example:
  "calc_conc (Reaction_init [Fin 0, Fin 5] [Fin (- (2 ^ 1023)), Fin (2 ^ 1023)] (Fin 1) (Fin 0)) =
     Inr ((Reaction_init [Fin 0, Fin 5] [Fin (- (2 ^ 1023)), Fin (2 ^ 1023)] (Fin 1) (Fin 0))
            \<lparr>normalized_cpm_array := [Fin 0, PInf], conc_array := [Fin 0, NaN]\<rparr>)"
  by (simp add: calc_conc_def Reaction_init_def fsub_Fin overflow_def overflow_threshold_def
      inf_of_sign_def)

section \<open>Properties of the record parser\<close>

lemmas float_defs = py_float_def absfloatvalue_def floatnumber_def digitpart_def is_digit_def
  exponent_def nat_of_digits_def digit_val_def lower_char_def scale10_def overflow_small

text \<open>
  C3. The five lines \<open>conc 10.0\<close>, \<open>0.0 100.0\<close>, \<open>5.0 150.0\<close>, \<open>10.0 180.0\<close>,
  \<open>sa 50.0\<close> (each with its line feed) give exactly one Reaction, with the times
  0, 5, 10, the raw signals 100, 150, 180, the specific activity 50 and the total
  concentration 10; its other fields have the values the constructor gives them.
\<close>

theorem read_data_example:
  "read_data [''conc 10.0'' @ [CHR 0x0A], ''0.0 100.0'' @ [CHR 0x0A], ''5.0 150.0'' @ [CHR 0x0A],
              ''10.0 180.0'' @ [CHR 0x0A], ''sa 50.0'' @ [CHR 0x0A]] =
   Inr [\<lparr> cpm_array = [Fin 100, Fin 150, Fin 180],
          time_array = [Fin 0, Fin 5, Fin 10],
          sa = Fin 50, pars = Num (Fin 0), r2 = Fin 0, normalized_cpm_array = [],
          aa_conc = Fin 10, conc_array = [] \<rparr>]"
  by (simp add: read_data_def read_line_def init_pstate_def py_split_def is_space_def
      float_defs Reaction_init_def)

lemma read_lines_append:
  "read_lines st (xs @ ys) =
     (case read_lines st xs of Inl e \<Rightarrow> Inl e | Inr st' \<Rightarrow> read_lines st' ys)"
  by (induction xs arbitrary: st) (auto split: sum.splits)

lemma read_line_rxns:
  "read_line st l = Inr st' \<Longrightarrow> \<exists>rs'. rxns st' = rxns st @ rs'"
  by (auto simp: read_line_def split: list.splits if_splits option.splits)

lemma read_lines_rxns:
  "read_lines st ls = Inr st' \<Longrightarrow> \<exists>rs'. rxns st' = rxns st @ rs'"
proof (induction ls arbitrary: st)
  case Nil
  then show ?case by simp
next
  case (Cons l ls)
  then obtain st1 where 1: "read_line st l = Inr st1" and 2: "read_lines st1 ls = Inr st'"
    by (auto split: sum.splits)
  from read_line_rxns [OF 1] Cons.IH [OF 2] show ?case by auto
qed

text \<open>What an \<open>sa\<close> line does: it reads both buffers and appends one Reaction built from them.\<close>

lemma read_line_sa:
  assumes "py_split l = ''sa'' # tok # rest"
  shows "read_line st l =
     (case p_time_array st of
        None \<Rightarrow> Inl UnboundLocalError
      | Some ta \<Rightarrow>
          (case p_cpm_array st of
             None \<Rightarrow> Inl UnboundLocalError
           | Some ca \<Rightarrow>
               (case py_float tok of
                  None \<Rightarrow> Inl ValueError
                | Some v \<Rightarrow> Inr (st\<lparr>rxns := rxns st @ [Reaction_init ta ca v (p_aa_conc st)]\<rparr>))))"
  using assms by (simp add: read_line_def)

lemma read_data_append1:
  "read_data (pre @ [l]) =
     (case read_lines init_pstate pre of
        Inl e \<Rightarrow> Inl e
      | Inr st \<Rightarrow> (case read_line st l of Inl e \<Rightarrow> Inl e | Inr st' \<Rightarrow> Inr (rxns st')))"
  by (simp add: read_data_def read_lines_append split: sum.splits)

text \<open>
  C4. Let the input up to and including an \<open>sa\<close> line \<open>l1\<close> be read without error, with
  the result \<open>rs1\<close>, and let the next line \<open>l2\<close> be an \<open>sa\<close> line whose second token is the
  number \<open>v\<close>. Then \<open>rs1\<close> ends with the Reaction \<open>r\<close> of \<open>l1\<close>, and reading \<open>l2\<close> as well
  appends a second Reaction that equals \<open>r\<close> except for its specific activity \<open>v\<close>: the
  same times, raw signals and total concentration. Whatever lines follow, a result of the
  whole input starts with these Reactions.
\<close>

theorem read_data_second_sa:
  assumes first: "read_data (pre @ [l1]) = Inr rs1"
    and l1: "py_split l1 = ''sa'' # tok1 # rest1"
    and l2: "py_split l2 = ''sa'' # tok2 # rest2"
    and v: "py_float tok2 = Some v"
  shows "\<exists>rs0 r. rs1 = rs0 @ [r] \<and>
           read_data (pre @ [l1, l2]) = Inr (rs0 @ [r, r\<lparr>sa := v\<rparr>]) \<and>
           time_array (r\<lparr>sa := v\<rparr>) = time_array r \<and>
           cpm_array (r\<lparr>sa := v\<rparr>) = cpm_array r \<and>
           sa (r\<lparr>sa := v\<rparr>) = v \<and>
           aa_conc (r\<lparr>sa := v\<rparr>) = aa_conc r \<and>
           (\<forall>post rs. read_data (pre @ [l1, l2] @ post) = Inr rs \<longrightarrow>
              (\<exists>rs'. rs = rs0 @ [r, r\<lparr>sa := v\<rparr>] @ rs'))"
proof -
  from first obtain st0 st1 where
    st0: "read_lines init_pstate pre = Inr st0" and
    st1: "read_line st0 l1 = Inr st1" and rs1: "rs1 = rxns st1"
    by (auto simp: read_data_append1 split: sum.splits)
  from st1 l1 obtain ta ca v1 where
    ta: "p_time_array st0 = Some ta" and ca: "p_cpm_array st0 = Some ca" and
    st1_eq: "st1 = st0\<lparr>rxns := rxns st0 @ [Reaction_init ta ca v1 (p_aa_conc st0)]\<rparr>"
    by (auto simp: read_line_sa [OF l1] split: option.splits)
  let ?r = "Reaction_init ta ca v1 (p_aa_conc st0)"
  let ?st2 = "st1\<lparr>rxns := rxns st1 @ [Reaction_init ta ca v (p_aa_conc st0)]\<rparr>"
  have r': "Reaction_init ta ca v (p_aa_conc st0) = ?r\<lparr>sa := v\<rparr>"
    by (simp add: Reaction_init_def)
  have st2: "read_line st1 l2 = Inr ?st2"
    using ta ca v st1_eq by (simp add: read_line_sa [OF l2])
  have pre2: "read_lines init_pstate (pre @ [l1, l2]) = Inr ?st2"
    using st0 st1 st2 by (simp add: read_lines_append)
  have a: "rs1 = rxns st0 @ [?r]" using rs1 st1_eq by simp
  have b: "read_data (pre @ [l1, l2]) = Inr (rxns st0 @ [?r, ?r\<lparr>sa := v\<rparr>])"
    using pre2 st1_eq r' by (simp add: read_data_def)
  have c: "\<forall>post rs. read_data (pre @ [l1, l2] @ post) = Inr rs \<longrightarrow>
              (\<exists>rs'. rs = rxns st0 @ [?r, ?r\<lparr>sa := v\<rparr>] @ rs')"
  proof (intro allI impI)
    fix post rs
    assume "read_data (pre @ [l1, l2] @ post) = Inr rs"
    then have "read_data ((pre @ [l1, l2]) @ post) = Inr rs" by simp
    then obtain st3 where st3: "read_lines ?st2 post = Inr st3" and rs: "rs = rxns st3"
      unfolding read_data_def read_lines_append [of init_pstate "pre @ [l1, l2]" post] pre2
      by (auto split: sum.splits)
    from read_lines_rxns [OF st3] obtain rs' where "rxns st3 = rxns ?st2 @ rs'" by blast
    then show "\<exists>rs'. rs = rxns st0 @ [?r, ?r\<lparr>sa := v\<rparr>] @ rs'"
      using rs st1_eq r' by simp
  qed
  show ?thesis
    using a b c by (intro exI [of _ "rxns st0"] exI [of _ ?r]) simp
qed

theorem read_data_second_sa_witness:
  "read_data ([''conc 10.0'', ''0.0 100.0''] @ [''sa 50.0'', ''sa 25.0'']) =
     Inr [Reaction_init [Fin 0] [Fin 100] (Fin 50) (Fin 10),
          (Reaction_init [Fin 0] [Fin 100] (Fin 50) (Fin 10))\<lparr>sa := Fin 25\<rparr>]"
proof -
  let ?R = "Reaction_init [Fin 0] [Fin 100] (Fin 50) (Fin 10)"
  have first: "read_data ([''conc 10.0'', ''0.0 100.0''] @ [''sa 50.0'']) = Inr [?R]"
    by (simp add: read_data_def read_line_def init_pstate_def py_split_def is_space_def float_defs)
  have l1: "py_split ''sa 50.0'' = ''sa'' # ''50.0'' # []"
    by (simp add: py_split_def is_space_def)
  have l2: "py_split ''sa 25.0'' = ''sa'' # ''25.0'' # []"
    by (simp add: py_split_def is_space_def)
  have v: "py_float ''25.0'' = Some (Fin 25)"
    by (simp add: float_defs)
  from read_data_second_sa [OF first l1 l2 v] obtain rs0 r where
    "[?R] = rs0 @ [r]" and
    res: "read_data ([''conc 10.0'', ''0.0 100.0''] @ [''sa 50.0'', ''sa 25.0'']) =
            Inr (rs0 @ [r, r\<lparr>sa := Fin 25\<rparr>])"
    by blast
  then have "rs0 = []" "r = ?R" by simp_all
  with res show ?thesis by simp
qed

lemma read_line_unbound:
  assumes "p_time_array st = None" and "take 1 (py_split l) \<noteq> [''conc'']"
  shows "read_line st l = Inl (if 2 \<le> length (py_split l) then UnboundLocalError else IndexError)"
proof (cases "py_split l")
  case Nil
  then show ?thesis by (simp add: read_line_def)
next
  case (Cons t ts)
  then show ?thesis using assms by (cases ts) (simp_all add: read_line_def)
qed

text \<open>
  C5 as it is stated fails: an \<open>sa\<close> line that follows a \<open>conc\<close> line directly, with no
  data line before it, raises nothing. The buffers are bound and empty, and the parser
  returns a Reaction with no times and no raw signals.
\<close>

theorem read_data_conc_sa_counterexample:
  "read_data [''conc 10.0'' @ [CHR 0x0A], ''sa 50.0'' @ [CHR 0x0A]] =
   Inr [Reaction_init [] [] (Fin 50) (Fin 10)]"
  by (simp add: read_data_def read_line_def init_pstate_def py_split_def is_space_def float_defs)

text \<open>
  C5, as amended. When an \<open>sa\<close> line comes with no \<open>conc\<close> line before it, the parser
  raises and returns no Reaction, whatever follows. The exception is raised at the first
  line of the input: \<open>UnboundLocalError\<close> (the buffers do not exist yet) when that line
  has at least two tokens, \<open>IndexError\<close> when it has fewer.
\<close>

theorem read_data_sa_before_conc:
  assumes "\<forall>x \<in> set pre. take 1 (py_split x) \<noteq> [''conc'']"
    and "take 1 (py_split l) = [''sa'']"
  shows "read_data (pre @ l # post) =
           Inl (if 2 \<le> length (py_split (hd (pre @ [l]))) then UnboundLocalError else IndexError)"
proof -
  have init: "p_time_array init_pstate = None" by (simp add: init_pstate_def)
  show ?thesis
  proof (cases pre)
    case Nil
    have "take 1 (py_split l) \<noteq> [''conc'']" using assms(2) by simp
    from read_line_unbound [OF init this] show ?thesis using Nil by (simp add: read_data_def)
  next
    case (Cons x xs)
    then have "take 1 (py_split x) \<noteq> [''conc'']" using assms(1) by simp
    from read_line_unbound [OF init this] show ?thesis using Cons by (simp add: read_data_def)
  qed
qed

theorem read_data_sa_before_conc_witness:
  "read_data ([] @ (''sa 50.0'' @ [CHR 0x0A]) # [''conc 10.0'' @ [CHR 0x0A]]) = Inl UnboundLocalError"
proof -
  have a: "\<forall>x \<in> set []. take 1 (py_split x) \<noteq> [''conc'']" by simp
  have b: "take 1 (py_split (''sa 50.0'' @ [CHR 0x0A])) = [''sa'']"
    by (simp add: py_split_def is_space_def)
  have c: "2 \<le> length (py_split (hd ([] @ [''sa 50.0'' @ [CHR 0x0A]])))"
    by (simp add: py_split_def is_space_def)
  from read_data_sa_before_conc [OF a b, of "[''conc 10.0'' @ [CHR 0x0A]]"] c show ?thesis
    by (simp only: if_True)
qed

lemma split_from_nospace:
  "\<forall>c \<in> set t. \<not> is_space c \<Longrightarrow> split_from cur (t @ rest) = split_from (cur @ t) rest"
  by (induction t arbitrary: cur) simp_all

lemma split_from_tokens:
  "\<forall>c \<in> set cur. \<not> is_space c \<Longrightarrow> tok \<in> set (split_from cur s) \<Longrightarrow>
     tok \<noteq> [] \<and> (\<forall>c \<in> set tok. \<not> is_space c)"
proof (induction s arbitrary: cur)
  case Nil
  from Nil.prems(2) have "cur \<noteq> []" and "tok = cur"
    by (simp_all split: if_splits)
  then show ?case using Nil.prems(1) by simp
next
  case (Cons c s)
  show ?case
  proof (cases "is_space c")
    case sp: True
    show ?thesis
    proof (cases "cur = []")
      case True
      with sp Cons.prems(2) have "tok \<in> set (split_from [] s)" by simp
      then show ?thesis by (rule Cons.IH [rotated]) simp
    next
      case False
      with sp Cons.prems(2) have "tok = cur \<or> tok \<in> set (split_from [] s)" by simp
      then show ?thesis
      proof
        assume "tok = cur"
        then show ?thesis using False Cons.prems(1) by simp
      next
        assume "tok \<in> set (split_from [] s)"
        then show ?thesis by (rule Cons.IH [rotated]) simp
      qed
    qed
  next
    case False
    with Cons.prems(2) have "tok \<in> set (split_from (cur @ [c]) s)" by simp
    moreover have "\<forall>x \<in> set (cur @ [c]). \<not> is_space x" using False Cons.prems(1) by simp
    ultimately show ?thesis by (rule Cons.IH [rotated])
  qed
qed

lemma py_split_tokens:
  "tok \<in> set (py_split s) \<Longrightarrow> tok \<noteq> [] \<and> (\<forall>c \<in> set tok. \<not> is_space c)"
  unfolding py_split_def by (rule split_from_tokens) simp_all

lemma py_split_two:
  assumes "t0 \<noteq> []" "\<forall>c \<in> set t0. \<not> is_space c" "t1 \<noteq> []" "\<forall>c \<in> set t1. \<not> is_space c"
  shows "py_split (t0 @ '' '' @ t1) = [t0, t1]"
proof -
  have sp: "is_space CHR '' ''" by (simp add: is_space_def)
  have "py_split (t0 @ '' '' @ t1) = split_from t0 (CHR '' '' # t1)"
    using split_from_nospace [OF assms(2), of "[]" "'' '' @ t1"] by (simp add: py_split_def)
  also have "\<dots> = t0 # split_from [] t1" using sp assms(1) by simp
  also have "split_from [] t1 = split_from t1 []"
    using split_from_nospace [OF assms(4), of "[]" "[]"] by simp
  also have "\<dots> = [t1]" using assms(3) by simp
  finally show ?thesis .
qed

lemma py_split_truncate_line:
  assumes "2 \<le> length (py_split l)"
  shows "py_split (truncate_line l) = take 2 (py_split l)"
proof -
  obtain t0 t1 ts where s: "py_split l = t0 # t1 # ts"
    using assms by (cases "py_split l"; cases "tl (py_split l)") auto
  have "t0 \<in> set (py_split l)" "t1 \<in> set (py_split l)" using s by simp_all
  then have "py_split (t0 @ '' '' @ t1) = [t0, t1]"
    using py_split_tokens [of t0 l] py_split_tokens [of t1 l] by (intro py_split_two) auto
  then show ?thesis using s by (simp add: truncate_line_def)
qed

lemma read_line_first_two:
  assumes "take 2 (py_split l') = take 2 (py_split l)"
  shows "read_line st l' = read_line st l"
proof (cases "py_split l")
  case Nil
  then show ?thesis using assms by (simp add: read_line_def)
next
  case (Cons t ts)
  note l = this
  show ?thesis
  proof (cases ts)
    case Nil
    then show ?thesis using assms l by (cases "py_split l'"; cases "tl (py_split l')") (auto simp: read_line_def)
  next
    case (Cons u us)
    then show ?thesis using assms l by (cases "py_split l'"; cases "tl (py_split l')") (auto simp: read_line_def)
  qed
qed

lemma read_data_line_cong:
  assumes "\<And>st0. read_line st0 l' = read_line st0 l"
  shows "read_data (pre @ l' # post) = read_data (pre @ l # post)"
  using assms by (simp add: read_data_def read_lines_append split: sum.splits)

text \<open>
  C9. The loop body reads \<open>entries[0]\<close> and \<open>entries[1]\<close> only. So for a line with at
  least two tokens (a data line in particular), the result of the parser on any input
  is the same when the line is cut after its second token, and the same for any other
  line with the same first two tokens.
\<close>

theorem read_data_first_two_tokens:
  assumes "2 \<le> length (py_split l)"
  shows "py_split (truncate_line l) = take 2 (py_split l) \<and>
         read_data (pre @ truncate_line l # post) = read_data (pre @ l # post) \<and>
         (\<forall>l'. take 2 (py_split l') = take 2 (py_split l) \<longrightarrow>
            read_data (pre @ l' # post) = read_data (pre @ l # post))"
proof -
  have a: "py_split (truncate_line l) = take 2 (py_split l)"
    using assms by (rule py_split_truncate_line)
  have c: "read_data (pre @ l' # post) = read_data (pre @ l # post)"
    if "take 2 (py_split l') = take 2 (py_split l)" for l'
    using read_line_first_two [OF that] by (intro read_data_line_cong) simp
  have b: "take 2 (py_split (truncate_line l)) = take 2 (py_split l)" using a by simp
  from a c [OF b] c show ?thesis by blast
qed

theorem read_data_first_two_tokens_witness:
  "read_data ([''conc 10.0''] @ truncate_line ''0.0 100.0 extra tokens'' # [''sa 50.0'']) =
   read_data ([''conc 10.0''] @ ''0.0 100.0 extra tokens'' # [''sa 50.0''])"
proof -
  have "2 \<le> length (py_split ''0.0 100.0 extra tokens'')"
    by (simp add: py_split_def is_space_def)
  from read_data_first_two_tokens [OF this, of "[''conc 10.0'']" "[''sa 50.0'']"]
  show ?thesis by blast
qed

section \<open>Properties of the replicate aggregator\<close>

lemma length_concat_uniform:
  "\<forall>row \<in> set rows. length row = n \<Longrightarrow> length (concat rows) = length rows * n"
  by (induction rows) simp_all

lemma chunks_concat_uniform:
  "\<forall>row \<in> set rows. length row = n \<Longrightarrow> chunks (length rows) n (concat rows) = rows"
  by (induction rows) simp_all

lemma np_asarray_eq:
  "np_asarray rows =
     (if \<forall>row \<in> set rows. length row = length (hd rows) then Inr rows else Inl ValueError)"
  by (simp add: np_asarray_def list_all_iff)

text \<open>
  With as many rows asked for as there are, the reshape succeeds exactly when every row
  has the length asked for, and then it is the matrix of these rows.
\<close>

lemma np_reshape_rows:
  assumes "rows \<noteq> []"
  shows "np_reshape rows (length rows) n =
           (if \<forall>row \<in> set rows. length row = n then Inr rows else Inl ValueError)"
proof (cases "\<forall>row \<in> set rows. length row = length (hd rows)")
  case uniform: True
  have asr: "np_asarray rows = Inr rows"
    unfolding np_asarray_eq using uniform by (rule if_P)
  show ?thesis
  proof (cases "\<forall>row \<in> set rows. length row = n")
    case True
    have "np_reshape rows (length rows) n = Inr rows"
      using length_concat_uniform [OF True] chunks_concat_uniform [OF True]
      by (simp add: np_reshape_def asr)
    then show ?thesis using True by simp
  next
    case False
    then have "length (hd rows) \<noteq> n" using uniform by auto
    moreover have "0 < length rows" using assms by simp
    ultimately have "length rows * length (hd rows) \<noteq> length rows * n" by simp
    then have "length (concat rows) \<noteq> length rows * n"
      using length_concat_uniform [OF uniform] by simp
    then have "np_reshape rows (length rows) n = Inl ValueError"
      by (simp add: np_reshape_def asr)
    then show ?thesis using False by simp
  qed
next
  case ragged: False
  have asr: "np_asarray rows = Inl ValueError"
    unfolding np_asarray_eq using ragged by (rule if_not_P)
  have "\<not> (\<forall>row \<in> set rows. length row = n)"
  proof
    assume a: "\<forall>row \<in> set rows. length row = n"
    then have "length (hd rows) = n" using assms by simp
    with a have "\<forall>row \<in> set rows. length row = length (hd rows)" by simp
    with ragged show False by contradiction
  qed
  moreover have "np_reshape rows (length rows) n = Inl ValueError"
    by (simp add: np_reshape_def asr)
  ultimately show ?thesis by simp
qed

lemma plot_multiple_fit_eq:
  assumes "rs \<noteq> []"
  shows "plot_multiple_fit fit rs =
           (if \<forall>r \<in> set rs. length (conc_array r) = length (time_array (hd rs))
            then (case np_average0 (map conc_array rs) (length (time_array (hd rs))) of
                    Inl e \<Rightarrow> Inl e
                  | Inr ave \<Rightarrow>
                      (case fit ave (time_array (hd rs)) of
                         Inl e \<Rightarrow> Inl e
                       | Inr (ave_pars, rsq) \<Rightarrow>
                           Inr (ave, np_std0 (map conc_array rs) (length (time_array (hd rs))),
                                ave_pars)))
            else Inl ValueError)"
proof -
  obtain r0 rest where rs: "rs = r0 # rest" using assms by (cases rs) auto
  have hd: "hd rs = r0" by (simp add: rs)
  have ne: "map conc_array rs \<noteq> []" using assms by simp
  have all: "(\<forall>row \<in> set (map conc_array rs). length row = length (time_array r0)) \<longleftrightarrow>
             (\<forall>r \<in> set rs. length (conc_array r) = length (time_array r0))"
    by simp
  show ?thesis
  proof (cases "\<forall>r \<in> set rs. length (conc_array r) = length (time_array r0)")
    case True
    then have "np_reshape (map conc_array rs) (length (map conc_array rs))
                 (length (time_array r0)) = Inr (map conc_array rs)"
      using np_reshape_rows [OF ne, of "length (time_array r0)"] all by simp
    then show ?thesis
      using True
      by (simp add: plot_multiple_fit_def rs Let_def split: sum.splits prod.splits)
  next
    case False
    then have "np_reshape (map conc_array rs) (length (map conc_array rs))
                 (length (time_array r0)) = Inl ValueError"
      using np_reshape_rows [OF ne, of "length (time_array r0)"] all by simp
    then have "plot_multiple_fit fit rs = Inl ValueError"
      by (simp add: plot_multiple_fit_def rs Let_def)
    then show ?thesis using False by (auto simp: hd)
  qed
qed

lemma calc_conc_lengths:
  assumes "calc_conc r = Inr r'"
  shows "time_array r' = time_array r \<and> length (conc_array r') = length (cpm_array r)"
  using calc_conc_Inr [OF assms] by simp

lemma calc_conc_all_nth:
  "calc_conc_all rs = Inr rs' \<Longrightarrow>
     length rs' = length rs \<and> (\<forall>i < length rs. calc_conc (rs ! i) = Inr (rs' ! i))"
proof (induction rs arbitrary: rs')
  case Nil
  then show ?case by simp
next
  case (Cons r rs)
  then obtain r' rest' where 1: "calc_conc r = Inr r'" and 2: "calc_conc_all rs = Inr rest'"
    and 3: "rs' = r' # rest'"
    by (auto split: sum.splits)
  from Cons.IH [OF 2] 1 3 show ?case by (auto simp: nth_Cons split: nat.splits)
qed







text \<open>
  What the divisor is shows with two replicates: the standard deviation of 40 and 42 is
  1 (with \<open>ddof = 1\<close> it would be the square root of 2).
\<close>

lemma std_two_example: "std [Fin 40, Fin 42] = Fin 1"
  by (simp add: std_def mean_def fsum_def fsub_Fin overflow_small)

text \<open>
  Where the finiteness is needed: the deviation of \<open>inf\<close> or \<open>nan\<close> from itself is \<open>nan\<close>,
  so a concentration that is not finite (from a specific activity 0, or an overflow) has
  the standard deviation \<open>nan\<close>. No column at all is an error of \<open>np.average\<close>.
\<close>

lemma std_not_finite_example: "np_std0 [[NaN, PInf]] 2 = [NaN, NaN]"
  by (simp add: np_std0_def column_def std_def mean_def fsum_def fsub_def upt_rec
      inf_of_sign_def numeral_2_eq_2)

lemma plot_multiple_fit_no_columns:
  "plot_multiple_fit fit [Reaction_init [] [] (Fin 50) (Fin 10)] = Inl ZeroDivisionError"
  by (simp add: plot_multiple_fit_def Reaction_init_def np_reshape_def np_asarray_def
      np_average0_def)

section \<open>Properties of the whole run\<close>

lemma read_line_buffers_ok:
  "read_line st l = Inr st' \<Longrightarrow> buffers_ok st \<Longrightarrow> buffers_ok st'"
  by (auto simp: read_line_def buffers_ok_def Reaction_init_def
      split: list.splits if_splits option.splits)

lemma read_lines_buffers_ok:
  "read_lines st ls = Inr st' \<Longrightarrow> buffers_ok st \<Longrightarrow> buffers_ok st'"
proof (induction ls arbitrary: st)
  case Nil
  then show ?case by simp
next
  case (Cons l ls)
  then obtain st1 where 1: "read_line st l = Inr st1" and 2: "read_lines st1 ls = Inr st'"
    by (auto split: sum.splits)
  from read_line_buffers_ok [OF 1 Cons.prems(2)] Cons.IH [OF 2] show ?case by simp
qed

text \<open>Every replicate that the parser builds has as many raw signals as times.\<close>

lemma read_data_lengths:
  assumes "read_data ls = Inr rs"
  shows "\<forall>r \<in> set rs. length (time_array r) = length (cpm_array r)"
proof -
  from assms obtain st where st: "read_lines init_pstate ls = Inr st" and rs: "rs = rxns st"
    by (auto simp: read_data_def split: sum.splits)
  have "buffers_ok init_pstate" by (simp add: buffers_ok_def init_pstate_def)
  from read_lines_buffers_ok [OF st this] show ?thesis using rs by (simp add: buffers_ok_def)
qed

text \<open>
  So on the way through \<open>main\<close>, time arrays of different lengths end the run with the
  \<open>ValueError\<close> of the array conversion, whatever the fit is.
\<close>

lemma main_mismatch:
  assumes rd: "read_data ls = Inr rs0"
    and cc: "calc_conc_all rs0 = Inr rs"
    and mm: "\<exists>r \<in> set rs0. length (time_array r) \<noteq> length (time_array (hd rs0))"
  shows "main fit ls = Inl ValueError"
proof -
  have ne: "rs \<noteq> []" using calc_conc_all_nth [OF cc] mm by auto
  have "\<not> (\<forall>r \<in> set rs. length (conc_array r) = length (time_array (hd rs)))"
  proof -
    from calc_conc_all_nth [OF cc] have len: "length rs = length rs0"
      and nth: "\<And>i. i < length rs0 \<Longrightarrow> calc_conc (rs0 ! i) = Inr (rs ! i)" by auto
    from mm have ne0: "rs0 \<noteq> []" by auto
    then have ne: "rs \<noteq> []" using len by auto
    have t: "time_array (rs ! i) = time_array (rs0 ! i)"
      and c: "length (conc_array (rs ! i)) = length (time_array (rs0 ! i))"
      if "i < length rs0" for i
      using calc_conc_lengths [OF nth [OF that]] read_data_lengths [OF rd] that by auto
    from mm obtain i where i: "i < length rs0"
      and d: "length (time_array (rs0 ! i)) \<noteq> length (time_array (hd rs0))"
      by (auto simp: in_set_conv_nth)
    have "time_array (hd rs) = time_array (hd rs0)"
      using t [of 0] ne0 ne by (simp add: hd_conv_nth)
    then have "length (conc_array (rs ! i)) \<noteq> length (time_array (hd rs))"
      using c [OF i] d by simp
    moreover have "rs ! i \<in> set rs" using i len by simp
    ultimately show ?thesis by auto
  qed
  then have "plot_multiple_fit fit rs = Inl ValueError"
    unfolding plot_multiple_fit_eq [OF ne] by (rule if_not_P)
  then show ?thesis using rd cc by (simp add: main_def)
qed

lemma main_mismatch_example:
  "main fit [''conc 10.0'', ''0.0 100.0'', ''5.0 150.0'', ''10.0 180.0'', ''sa 50.0'',
         ''conc 10.0'', ''0.0 100.0'', ''5.0 150.0'', ''sa 50.0''] = Inl ValueError"
  by (simp add: main_def read_data_def read_line_def init_pstate_def py_split_def is_space_def
      float_defs calc_conc_def Reaction_init_def
      plot_multiple_fit_def np_reshape_def np_asarray_def fsub_Fin)

end
